theory Spec2Isabelle
  imports
    Main
    "HOL-Library.Sublist"
    "HOL-Library.Multiset"
    "HOL-Library.Char_ord"
    "HOL-Library.List_Lexorder"
begin

section \<open>Spotify songs search: the data model\<close>

text \<open>
  The program (\<^verbatim>\<open>app.py\<close>) reads a CSV file into a pandas DataFrame, shows
  summary metrics, collects four filter inputs from widgets and, when the search
  button is pressed, narrows a copy of the DataFrame in four stages.

  A cell of one of the two columns the program searches is what \<^verbatim>\<open>read_csv\<close> made
  of it: a missing value (\<^verbatim>\<open>NaN\<close>), a text, or a number.  \<^verbatim>\<open>read_csv\<close> gives a column
  a numeric type when every cell that is present reads as a number, and then its
  cells are numbers here (so the cells of a column of digits are \<open>Number\<close>, never
  \<open>Text\<close>); a text cell belongs to a column of text type, and a column read from a
  file does not mix texts and numbers.  Text is a
  list of characters with code points below 256.  The \<^verbatim>\<open>year\<close> column is an integer
  column and the \<^verbatim>\<open>genre\<close> column a text column without missing cells: the program
  converts the year bounds with \<^verbatim>\<open>int\<close> and sorts the genre values, both of which
  presuppose this.  A DataFrame is the list of its rows in index order.
\<close>

datatype cell = Missing | Text string | Number int

record song =
  song_id :: int
  artist_name :: cell
  track_name :: cell
  track_id :: string
  year :: int
  genre :: string

type_synonym dataframe = "song list"

text \<open>
  The values of the four widgets at the moment the button is pressed:
  \<^verbatim>\<open>artist_name\<close> and \<^verbatim>\<open>track_name\<close> (the two text inputs; named \<open>artist_query\<close> and
  \<open>track_query\<close> here, since the columns carry the same names), \<^verbatim>\<open>year_range\<close> (the
  pair the slider returns) and \<^verbatim>\<open>selected_genres\<close> (the list the multiselect returns).
\<close>

record filter_criteria =
  artist_query :: string
  track_query :: string
  year_range :: "int \<times> int"
  selected_genres :: "string list"

text \<open>
  What the program can raise.  \<open>Pattern_Error pat\<close> is the exception of the pattern
  engine for a pattern \<open>pat\<close> it cannot compile (\<^verbatim>\<open>re.error\<close> of Python's \<^verbatim>\<open>re\<close>; the
  Arrow engine raises its own).  \<open>Attribute_Error\<close> is what the \<^verbatim>\<open>.str\<close> accessor raises
  on a column that is not of text type.  \<open>Value_Error\<close> is the \<^verbatim>\<open>ValueError\<close> of
  \<^verbatim>\<open>int(nan)\<close>.  \<open>Streamlit_API_Exception\<close> is what \<^verbatim>\<open>st.slider\<close> raises when its
  \<^verbatim>\<open>min_value\<close> is not below its \<^verbatim>\<open>max_value\<close>.
\<close>

datatype error =
  Pattern_Error string | Attribute_Error | Value_Error | Streamlit_API_Exception

section \<open>Text search: \<^verbatim>\<open>Series.str.contains\<close>\<close>

text \<open>
  \<^verbatim>\<open>Series.str.contains(pat, case=False, na=False)\<close> leaves \<^verbatim>\<open>regex\<close> at its default
  \<^verbatim>\<open>True\<close>, so the query is a pattern.  Which engine reads the pattern, and when it
  compiles it, depends on the installed pandas: Python's \<^verbatim>\<open>re\<close> on columns of object
  type, the Arrow engine on Arrow-backed text columns.  The repository pins no
  version.  The embedding therefore fixes only what the engines share, and takes
  the rest as a parameter, the \<open>library\<close>, over which every theorem is general.

  Shared, and fixed here:
  \<^item> the result is computed cell by cell; a cell that is not a text gives \<^verbatim>\<open>False\<close>
    (\<^verbatim>\<open>na=False\<close>);
  \<^item> a column with numbers and no text is of numeric type, and \<^verbatim>\<open>.str\<close> raises;
  \<^item> on a column with text and no number, a pattern built only from ordinary
    characters, \<^verbatim>\<open>.\<close>, \<^verbatim>\<open>^\<close>, \<^verbatim>\<open>$\<close> and parentheses (a ``portable'' pattern) is compiled:
    unbalanced parentheses raise, and nothing else does;
  \<^item> what a portable pattern matches in a text without a newline; and what a
    pattern of ordinary characters alone matches in any text.

  Left to the library: whether the call raises on a column without text or with
  text and numbers mixed, or for a pattern that is not portable; and what such a
  pattern, or a portable one on a text with a newline, matches in a text.
\<close>

datatype text_column = Artist_Column | Track_Column

record library =
  lib_raises :: "text_column \<Rightarrow> cell list \<Rightarrow> string \<Rightarrow> error option"
  lib_search :: "string \<Rightarrow> string \<Rightarrow> bool"

definition lower_char :: "char \<Rightarrow> char" where
  \<comment> \<open>Lower-casing of a code point below 256: A-Z and the capital letters of
      Latin-1 (0xC0-0xDE without the multiplication sign 0xD7).\<close>
  "lower_char c =
     (let n = (of_char c :: nat)
      in if (65 \<le> n \<and> n \<le> 90) \<or> (192 \<le> n \<and> n \<le> 222 \<and> n \<noteq> 215)
         then char_of (n + 32) else c)"

definition special_characters :: string where
  "special_characters =
     [CHR ''.'', CHR ''^'', CHR ''$'', CHR ''*'', CHR ''+'', CHR ''?'', CHR ''{'', CHR ''}'',
      CHR ''['', CHR '']'', CHR 0x5C, CHR ''|'', CHR ''('', CHR '')'']"

definition plain :: "string \<Rightarrow> bool" where
  "plain pat = (pat \<noteq> [] \<and> list_all (\<lambda>c. c \<notin> set special_characters) pat)"

definition portable_char :: "char \<Rightarrow> bool" where
  "portable_char c =
     (c \<notin> set special_characters
      \<or> c = CHR ''.'' \<or> c = CHR ''^'' \<or> c = CHR ''$'' \<or> c = CHR ''('' \<or> c = CHR '')'')"

definition portable :: "string \<Rightarrow> bool" where
  "portable pat = list_all portable_char pat"

datatype regex =
    Literal char
  | Any
  | At_Beginning
  | At_End
  | Subpattern regex
  | Cat regex regex
  | Empty

fun sequence :: "regex list \<Rightarrow> regex" where
  "sequence [] = Empty"
| "sequence [r] = r"
| "sequence (r # rs) = Cat r (sequence rs)"

text \<open>
  The parser of portable patterns reads the pattern left to right.  \<open>cur\<close> holds
  the items of the group being read, newest first; \<open>stack\<close> holds the items of the
  enclosing groups.  \<open>None\<close> is a pattern with unbalanced parentheses.
\<close>

fun parse :: "regex list \<Rightarrow> regex list list \<Rightarrow> string \<Rightarrow> regex option" where
  "parse cur stack [] = (if stack = [] then Some (sequence (rev cur)) else None)"
| "parse cur stack (c # cs) =
     (if c = CHR ''('' then parse [] (cur # stack) cs
      else if c = CHR '')'' then
        (case stack of
           [] \<Rightarrow> None
         | outer # stack' \<Rightarrow> parse (Subpattern (sequence (rev cur)) # outer) stack' cs)
      else if c = CHR ''.'' then parse (Any # cur) stack cs
      else if c = CHR ''^'' then parse (At_Beginning # cur) stack cs
      else if c = CHR ''$'' then parse (At_End # cur) stack cs
      else parse (Literal c # cur) stack cs)"

definition re_compile :: "string \<Rightarrow> regex option" where
  "re_compile pat = parse [] [] pat"

text \<open>
  Matching.  A position in the text is the text still to be read, with a flag
  that tells whether it is the start of the whole text.  \<open>match_at r p\<close> is the
  position at which the match of \<open>r\<close> that begins at \<open>p\<close> ends, if there is one.  A
  literal is compared after lower-casing (\<^verbatim>\<open>case=False\<close>); \<^verbatim>\<open>.\<close> matches every
  character but the newline; \<^verbatim>\<open>^\<close> and \<^verbatim>\<open>$\<close> match at the start and at the end of
  the text.
\<close>

type_synonym position = "bool \<times> string"

fun match_at :: "regex \<Rightarrow> position \<Rightarrow> position option" where
  "match_at (Literal c) p =
     (case snd p of
        [] \<Rightarrow> None
      | x # xs \<Rightarrow> if lower_char x = lower_char c then Some (False, xs) else None)"
| "match_at Any p =
     (case snd p of
        [] \<Rightarrow> None
      | x # xs \<Rightarrow> if x \<noteq> CHR 0x0A then Some (False, xs) else None)"
| "match_at At_Beginning p = (if fst p then Some p else None)"
| "match_at At_End p = (if snd p = [] then Some p else None)"
| "match_at (Subpattern r) p = match_at r p"
| "match_at (Cat r s) p =
     (case match_at r p of None \<Rightarrow> None | Some p' \<Rightarrow> match_at s p')"
| "match_at Empty p = Some p"

fun search_from :: "regex \<Rightarrow> bool \<Rightarrow> string \<Rightarrow> bool" where
  "search_from r at_start [] = (match_at r (at_start, []) \<noteq> None)"
| "search_from r at_start (x # xs) =
     (match_at r (at_start, x # xs) \<noteq> None \<or> search_from r False xs)"

definition re_search :: "regex \<Rightarrow> string \<Rightarrow> bool" where
  "re_search r text = search_from r True text"

definition newline_free :: "string \<Rightarrow> bool" where
  "newline_free text = (CHR 0x0A \<notin> set text)"

text \<open>Whether the pattern is found in one text.\<close>

definition text_hit :: "library \<Rightarrow> string \<Rightarrow> string \<Rightarrow> bool" where
  "text_hit lib pat text =
     (if portable pat \<and> (plain pat \<or> newline_free text) then
        (case re_compile pat of
           Some r \<Rightarrow> re_search r text
         | None \<Rightarrow> lib_search lib pat text)
      else lib_search lib pat text)"

definition cell_hit :: "library \<Rightarrow> string \<Rightarrow> cell \<Rightarrow> bool" where
  "cell_hit lib pat c =
     (case c of Text text \<Rightarrow> text_hit lib pat text | Missing \<Rightarrow> False | Number n \<Rightarrow> False)"

fun is_text :: "cell \<Rightarrow> bool" where
  "is_text (Text text) = True"
| "is_text c = False"

fun is_number :: "cell \<Rightarrow> bool" where
  "is_number (Number n) = True"
| "is_number c = False"

definition has_text :: "cell list \<Rightarrow> bool" where
  "has_text col = list_ex is_text col"

definition has_number :: "cell list \<Rightarrow> bool" where
  "has_number col = list_ex is_number col"

text \<open>The exception the call raises on a column, if any.\<close>

definition str_failure :: "library \<Rightarrow> text_column \<Rightarrow> cell list \<Rightarrow> string \<Rightarrow> error option" where
  "str_failure lib column col pat =
     (if has_number col \<and> \<not> has_text col then Some Attribute_Error
      else if has_text col \<and> \<not> has_number col \<and> portable pat then
        (case re_compile pat of
           None \<Rightarrow> Some (Pattern_Error pat)
         | Some r \<Rightarrow> None)
      else lib_raises lib column col pat)"

text \<open>
  \<open>str_contains lib column col pat\<close> is
  \<^verbatim>\<open>df[column].str.contains(pat, case=False, na=False)\<close> where \<open>col\<close> holds the cells of
  the column.
\<close>

definition str_contains ::
  "library \<Rightarrow> text_column \<Rightarrow> cell list \<Rightarrow> string \<Rightarrow> error + bool list" where
  "str_contains lib column col pat =
     (case str_failure lib column col pat of
        Some e \<Rightarrow> Inl e
      | None \<Rightarrow> Inr (map (cell_hit lib pat) col))"

section \<open>Other DataFrame operations\<close>

definition ge_series :: "int list \<Rightarrow> int \<Rightarrow> bool list" where
  "ge_series col v = map (\<lambda>y. y \<ge> v) col"

definition le_series :: "int list \<Rightarrow> int \<Rightarrow> bool list" where
  "le_series col v = map (\<lambda>y. y \<le> v) col"

definition and_series :: "bool list \<Rightarrow> bool list \<Rightarrow> bool list" where
  "and_series a b = map (\<lambda>(x, y). x \<and> y) (zip a b)"

definition isin :: "string list \<Rightarrow> string list \<Rightarrow> bool list" where
  "isin col values = map (\<lambda>g. g \<in> set values) col"

text \<open>Boolean indexing \<^verbatim>\<open>df[mask]\<close>: the rows whose mask entry is true, in order.\<close>

definition select_rows :: "dataframe \<Rightarrow> bool list \<Rightarrow> dataframe" where
  "select_rows df msk = map fst (filter snd (zip df msk))"

text \<open>\<^verbatim>\<open>Series.min()\<close> and \<^verbatim>\<open>Series.max()\<close>; \<open>None\<close> is the \<^verbatim>\<open>NaN\<close> of an empty column.\<close>

definition series_min :: "int list \<Rightarrow> int option" where
  "series_min col = (case col of [] \<Rightarrow> None | y # ys \<Rightarrow> Some (fold min ys y))"

definition series_max :: "int list \<Rightarrow> int option" where
  "series_max col = (case col of [] \<Rightarrow> None | y # ys \<Rightarrow> Some (fold max ys y))"

definition to_int :: "int option \<Rightarrow> error + int" where
  "to_int v = (case v of None \<Rightarrow> Inl Value_Error | Some n \<Rightarrow> Inr n)"

text \<open>\<^verbatim>\<open>Series.unique()\<close>: the distinct values in order of first appearance.\<close>

definition unique :: "'a list \<Rightarrow> 'a list" where
  "unique col = rev (remdups (rev col))"

text \<open>\<^verbatim>\<open>Series.nunique()\<close>: the number of distinct values, missing cells not counted.\<close>

definition dropna :: "cell list \<Rightarrow> cell list" where
  "dropna col = filter (\<lambda>c. c \<noteq> Missing) col"

definition nunique :: "'a list \<Rightarrow> nat" where
  "nunique col = length (remdups col)"

section \<open>The filter stages of \<^verbatim>\<open>main\<close>\<close>

text \<open>
  The four stages in the order of the source.  \<open>applies\<close> is the guard of a stage
  (\<^verbatim>\<open>if artist_name:\<close>, \<^verbatim>\<open>if track_name:\<close>, none for the year stage,
  \<^verbatim>\<open>if selected_genres:\<close>); \<open>stage_mask\<close> is the boolean Series the stage computes from
  the current frame; \<open>run_stage\<close> rebinds \<^verbatim>\<open>filtered_songs\<close> to the selected rows.
\<close>

datatype stage = Artist_Stage | Track_Stage | Year_Stage | Genre_Stage

fun applies :: "filter_criteria \<Rightarrow> stage \<Rightarrow> bool" where
  "applies C Artist_Stage = (artist_query C \<noteq> [])"
| "applies C Track_Stage = (track_query C \<noteq> [])"
| "applies C Year_Stage = True"
| "applies C Genre_Stage = (selected_genres C \<noteq> [])"

fun stage_mask :: "library \<Rightarrow> filter_criteria \<Rightarrow> stage \<Rightarrow> dataframe \<Rightarrow> error + bool list" where
  "stage_mask lib C Artist_Stage df =
     str_contains lib Artist_Column (map artist_name df) (artist_query C)"
| "stage_mask lib C Track_Stage df =
     str_contains lib Track_Column (map track_name df) (track_query C)"
| "stage_mask lib C Year_Stage df =
     Inr (and_series (ge_series (map year df) (fst (year_range C)))
                     (le_series (map year df) (snd (year_range C))))"
| "stage_mask lib C Genre_Stage df = Inr (isin (map genre df) (selected_genres C))"

definition run_stage ::
  "library \<Rightarrow> filter_criteria \<Rightarrow> stage \<Rightarrow> dataframe \<Rightarrow> error + dataframe" where
  "run_stage lib C st df =
     (if applies C st then
        (case stage_mask lib C st df of
           Inl e \<Rightarrow> Inl e
         | Inr msk \<Rightarrow> Inr (select_rows df msk))
      else Inr df)"

fun run_stages ::
  "library \<Rightarrow> filter_criteria \<Rightarrow> stage list \<Rightarrow> dataframe \<Rightarrow> error + dataframe" where
  "run_stages lib C [] df = Inr df"
| "run_stages lib C (st # sts) df =
     (case run_stage lib C st df of
        Inl e \<Rightarrow> Inl e
      | Inr df' \<Rightarrow> run_stages lib C sts df')"

definition source_order :: "stage list" where
  "source_order = [Artist_Stage, Track_Stage, Year_Stage, Genre_Stage]"

text \<open>Lines 79-101: the value \<^verbatim>\<open>filtered_songs\<close> holds after the genre stage.\<close>

definition apply_filters :: "library \<Rightarrow> dataframe \<Rightarrow> filter_criteria \<Rightarrow> error + dataframe" where
  "apply_filters lib df C = run_stages lib C source_order df"

text \<open>What follows a raised exception is skipped: sequencing of two fallible steps.\<close>

definition and_then :: "error + 'a \<Rightarrow> ('a \<Rightarrow> error + 'b) \<Rightarrow> error + 'b" where
  "and_then r f = (case r of Inl e \<Rightarrow> Inl e | Inr v \<Rightarrow> f v)"

section \<open>The widgets\<close>

text \<open>
  The widget values come from the user: \<open>None\<close> for the slider or the multiselect
  means the user has not touched it and it holds its default.  \<^verbatim>\<open>st.slider\<close> raises
  when \<^verbatim>\<open>min_value\<close> is not below \<^verbatim>\<open>max_value\<close>, which is the case when one year
  only occurs in the dataset.
\<close>

record user_input =
  artist_input :: string
  track_input :: string
  year_input :: "(int \<times> int) option"
  genres_input :: "string list option"
  search_clicked :: bool

definition st_slider ::
  "int \<Rightarrow> int \<Rightarrow> int \<times> int \<Rightarrow> (int \<times> int) option \<Rightarrow> error + int \<times> int" where
  "st_slider min_value max_value value moved =
     (if min_value \<ge> max_value then Inl Streamlit_API_Exception
      else Inr (case moved of None \<Rightarrow> value | Some v \<Rightarrow> v))"

definition st_multiselect :: "string list \<Rightarrow> string list \<Rightarrow> string list option \<Rightarrow> string list" where
  "st_multiselect options dflt chosen = (case chosen of None \<Rightarrow> dflt | Some g \<Rightarrow> g)"

definition all_genres :: "dataframe \<Rightarrow> string list" where
  "all_genres df = sort (unique (map genre df))"

text \<open>Lines 50-74: the criteria the widgets hold.\<close>

definition collect_criteria :: "dataframe \<Rightarrow> user_input \<Rightarrow> error + filter_criteria" where
  "collect_criteria songs_df inp =
     and_then (to_int (series_min (map year songs_df))) (\<lambda>min_year.
     and_then (to_int (series_max (map year songs_df))) (\<lambda>max_year.
     and_then (st_slider min_year max_year (min_year, max_year) (year_input inp)) (\<lambda>year_range.
       Inr \<lparr>artist_query = artist_input inp, track_query = track_input inp,
            year_range = year_range,
            selected_genres =
              st_multiselect (all_genres songs_df) (all_genres songs_df) (genres_input inp)\<rparr>)))"

definition untouched :: user_input where
  "untouched = \<lparr>artist_input = [], track_input = [], year_input = None,
                 genres_input = None, search_clicked = True\<rparr>"


section \<open>The same stages on a store of DataFrame objects\<close>

text \<open>
  \<^verbatim>\<open>songs_df\<close> and \<^verbatim>\<open>filtered_songs\<close> are names bound to DataFrame objects.  A store
  holds the objects by identity; identities from \<open>next_id\<close> on are not yet in use.
  \<^verbatim>\<open>songs_df.copy()\<close> and boolean indexing \<^verbatim>\<open>filtered_songs[mask]\<close> each build a new
  object; the assignment rebinds the name \<^verbatim>\<open>filtered_songs\<close> to it.  A stage whose
  guard is false leaves the binding as it is.
\<close>

record store =
  frames :: "nat \<Rightarrow> dataframe"
  next_id :: nat

definition allocate :: "dataframe \<Rightarrow> store \<Rightarrow> nat \<times> store" where
  "allocate df s =
     (next_id s, s\<lparr>frames := (frames s)(next_id s := df), next_id := Suc (next_id s)\<rparr>)"

definition df_copy :: "nat \<Rightarrow> store \<Rightarrow> nat \<times> store" where
  "df_copy r s = allocate (frames s r) s"

definition df_getitem :: "nat \<Rightarrow> bool list \<Rightarrow> store \<Rightarrow> nat \<times> store" where
  "df_getitem r msk s = allocate (select_rows (frames s r) msk) s"

definition run_stage_store ::
  "library \<Rightarrow> filter_criteria \<Rightarrow> stage \<Rightarrow> nat \<Rightarrow> store \<Rightarrow> (error + nat) \<times> store" where
  "run_stage_store lib C st filtered_songs s =
     (if applies C st then
        (case stage_mask lib C st (frames s filtered_songs) of
           Inl e \<Rightarrow> (Inl e, s)
         | Inr msk \<Rightarrow>
             (case df_getitem filtered_songs msk s of (r, s') \<Rightarrow> (Inr r, s')))
      else (Inr filtered_songs, s))"

fun run_stages_store ::
  "library \<Rightarrow> filter_criteria \<Rightarrow> stage list \<Rightarrow> nat \<Rightarrow> store \<Rightarrow> (error + nat) \<times> store" where
  "run_stages_store lib C [] filtered_songs s = (Inr filtered_songs, s)"
| "run_stages_store lib C (st # sts) filtered_songs s =
     (case run_stage_store lib C st filtered_songs s of
        (Inl e, s') \<Rightarrow> (Inl e, s')
      | (Inr r, s') \<Rightarrow> run_stages_store lib C sts r s')"

definition search_songs ::
  "library \<Rightarrow> nat \<Rightarrow> filter_criteria \<Rightarrow> store \<Rightarrow> (error + nat) \<times> store" where
  "search_songs lib songs_df C s =
     (case df_copy songs_df s of
        (filtered_songs, s') \<Rightarrow> run_stages_store lib C source_order filtered_songs s')"

section \<open>Loading and the page\<close>

text \<open>
  The file system maps a path to the table \<^verbatim>\<open>pd.read_csv\<close> returns for the file
  there; a path without a file maps to \<open>None\<close> (\<^verbatim>\<open>os.path.exists\<close> is false).  What
  the page shows is the list of display calls in program order; numbers formatted
  into a message are kept as numbers, and the pictographs of two labels are left
  out.
\<close>

type_synonym file_system = "string \<Rightarrow> dataframe option"

datatype metric_value = Count nat | Years "int option" "int option"

datatype ui_event =
    Title string
  | Markdown string
  | Header string
  | Error_Msg string
  | Warning_Msg string
  | Info_Msg string
  | Success_Found nat
  | Metric string metric_value
  | Show_Dataframe dataframe
  | Download_Button dataframe
  | Caption_Showing nat

definition updated_spotify_data_csv :: string where
  "updated_spotify_data_csv = ''updated_spotify_data.csv''"

definition not_found_message :: string where
  "not_found_message =
     ''File '' @ [CHR 0x27] @ updated_spotify_data_csv @ [CHR 0x27] @
     '' not found. Please make sure your data file exists.''"

definition no_songs_message :: string where
  "no_songs_message = ''No songs found matching your criteria. Try adjusting your filters.''"

definition load_songs :: "file_system \<Rightarrow> dataframe \<times> ui_event list" where
  "load_songs fs =
     (case fs updated_spotify_data_csv of
        Some df \<Rightarrow> (df, [])
      | None \<Rightarrow> ([], [Error_Msg not_found_message]))"

definition statistics :: "dataframe \<Rightarrow> ui_event list" where
  "statistics songs_df =
     [Metric ''Total Songs'' (Count (length songs_df)),
      Metric ''Unique Artists'' (Count (nunique (dropna (map artist_name songs_df)))),
      Metric ''Years Range''
        (Years (series_min (map year songs_df)) (series_max (map year songs_df))),
      Metric ''Genres'' (Count (nunique (map genre songs_df)))]"

definition show_results :: "dataframe \<Rightarrow> ui_event list" where
  "show_results filtered_songs =
     [Markdown ''---'', Header ''Search Results''] @
     (if filtered_songs = [] then [Error_Msg no_songs_message]
      else
        [Success_Found (length filtered_songs)] @
        (if length filtered_songs > 0 then
           [Metric ''Artists in Results''
              (Count (nunique (dropna (map artist_name filtered_songs)))),
            Metric ''Years Covered''
              (Years (series_min (map year filtered_songs))
                     (series_max (map year filtered_songs))),
            Metric ''Genres in Results'' (Count (nunique (map genre filtered_songs)))]
         else []) @
        [Show_Dataframe filtered_songs, Download_Button filtered_songs])"

definition show_preview :: "dataframe \<Rightarrow> ui_event list" where
  "show_preview songs_df =
     [Markdown ''---'', Header ''All Songs Preview'',
      Info_Msg
        (''Use the filters above to search for specific songs, then click '' @
         [CHR 0x27] @ ''Search Songs'' @ [CHR 0x27]),
      Show_Dataframe (take 10 songs_df)] @
     (if length songs_df > 10 then [Caption_Showing (length songs_df)] else [])"

text \<open>
  \<open>main\<close> returns what was displayed and, when an exception ended the run, the
  exception.
\<close>

definition main :: "library \<Rightarrow> file_system \<Rightarrow> user_input \<Rightarrow> ui_event list \<times> error option" where
  "main lib fs inp =
     (case load_songs fs of (songs_df, load_events) \<Rightarrow>
      let shown =
            [Title ''Spotify Songs Search'',
             Markdown ''Search and filter through your Spotify songs collection'',
             Markdown ''---''] @ load_events
      in
      if songs_df = [] then
        (shown @
         [Warning_Msg
            ''No songs data available. Please check if your CSV file exists and contains data.''],
         None)
      else
        let shown = shown @ statistics songs_df @ [Markdown ''---'', Header ''Search Filters'']
        in
        (case collect_criteria songs_df inp of
           Inl e \<Rightarrow> (shown, Some e)
         | Inr C \<Rightarrow>
             if search_clicked inp then
               (case apply_filters lib songs_df C of
                  Inl e \<Rightarrow> (shown, Some e)
                | Inr filtered_songs \<Rightarrow> (shown @ show_results filtered_songs, None))
             else (shown @ show_preview songs_df, None)))"

section \<open>Notions used to state the properties\<close>

text \<open>
  What a stage lets through, row by row: a stage whose guard is false lets every
  row through.
\<close>

definition spec_year_in_range :: "filter_criteria \<Rightarrow> song \<Rightarrow> bool" where
  \<comment> \<open>The specification's words for the year stage: both bounds inclusive.\<close>
  "spec_year_in_range C row =
     (fst (year_range C) \<le> year row \<and> year row \<le> snd (year_range C))"

fun stage_keeps :: "library \<Rightarrow> filter_criteria \<Rightarrow> stage \<Rightarrow> song \<Rightarrow> bool" where
  "stage_keeps lib C Artist_Stage row =
     (artist_query C = [] \<or> cell_hit lib (artist_query C) (artist_name row))"
| "stage_keeps lib C Track_Stage row =
     (track_query C = [] \<or> cell_hit lib (track_query C) (track_name row))"
| "stage_keeps lib C Year_Stage row = spec_year_in_range C row"
| "stage_keeps lib C Genre_Stage row =
     (selected_genres C = [] \<or> genre row \<in> set (selected_genres C))"

text \<open>
  A library is stable when a call that returns on a column also returns on every
  column made of some of its cells.  Both engines are: whether the call raises is
  decided by the type of the column, which filtering keeps, and by the pattern,
  compiled either always or whenever there are cells to search.
\<close>

definition stable :: "library \<Rightarrow> bool" where
  "stable lib =
     (\<forall>column col col' pat.
        subseq col' col \<and> str_failure lib column col pat = None
        \<longrightarrow> str_failure lib column col' pat = None)"

text \<open>
  The specification's words for the text stages, ``contains the query as a
  case-insensitive substring'': the lower-cased query is a contiguous part of the
  lower-cased text.  A cell that is not a text contains nothing.
\<close>

definition spec_contains_ci :: "string \<Rightarrow> string \<Rightarrow> bool" where
  "spec_contains_ci q text = sublist (map lower_char q) (map lower_char text)"

definition spec_cell_contains_ci :: "string \<Rightarrow> cell \<Rightarrow> bool" where
  "spec_cell_contains_ci q c =
     (case c of Text text \<Rightarrow> spec_contains_ci q text | Missing \<Rightarrow> False | Number n \<Rightarrow> False)"

section \<open>Example inputs\<close>

text \<open>
  One library among those the theorems cover, used where a closed example needs
  one.  It compiles the pattern only when the column has cells to search, and
  beyond what is fixed above it accepts no pattern that is not portable.  The
  examples below use portable patterns only.
\<close>

definition lazy_library :: library where
  "lazy_library =
     \<lparr>lib_raises =
        (\<lambda>column col pat.
           if col = [] then None
           else if has_number col then Some Attribute_Error
           else if portable pat \<and> re_compile pat \<noteq> None then None
           else Some (Pattern_Error pat)),
      lib_search = (\<lambda>pat text. False)\<rparr>"

text \<open>
  The two-row dataset and the criteria of the scenario in the specification's
  list of testable properties.
\<close>

definition row_abc :: song where
  "row_abc = \<lparr>song_id = 1, artist_name = Text ''Abc'', track_name = Text ''X'',
              track_id = ''t1'', year = 2000, genre = ''Pop''\<rparr>"

definition row_xyz :: song where
  "row_xyz = \<lparr>song_id = 2, artist_name = Text ''Xyz'', track_name = Text ''Y'',
              track_id = ''t2'', year = 2010, genre = ''Rock''\<rparr>"

definition scenario_dataset :: dataframe where
  "scenario_dataset = [row_abc, row_xyz]"

definition scenario_criteria :: filter_criteria where
  "scenario_criteria = \<lparr>artist_query = ''ab'', track_query = [],
                         year_range = (1990, 2020),
                         selected_genres = [''Pop'', ''Rock'']\<rparr>"

text \<open>Two more rows, whose names hold a special character.\<close>

definition row_kesha :: song where
  "row_kesha = \<lparr>song_id = 3, artist_name = Text ''Ke$ha'', track_name = Text ''Tik Tok'',
                track_id = ''t3'', year = 2010, genre = ''Pop''\<rparr>"

definition row_acdc :: song where
  "row_acdc = \<lparr>song_id = 4, artist_name = Text ''AC(DC'', track_name = Text ''AC(DC'',
               track_id = ''t4'', year = 1980, genre = ''Rock''\<rparr>"

definition kesha_dataset :: dataframe where
  "kesha_dataset = [row_abc, row_kesha]"

definition acdc_dataset :: dataframe where
  "acdc_dataset = [row_abc, row_acdc]"


text \<open>File systems whose data file holds one of these datasets.\<close>

definition files_with :: "dataframe \<Rightarrow> file_system" where
  "files_with df = (\<lambda>path. if path = updated_spotify_data_csv then Some df else None)"

definition no_files :: file_system where
  "no_files = (\<lambda>path. None)"

text \<open>A store in which the name \<^verbatim>\<open>songs_df\<close> is bound to object 0, the scenario's dataset.\<close>

definition scenario_store :: store where
  "scenario_store = \<lparr>frames = (\<lambda>i. if i = 0 then scenario_dataset else []), next_id = 1\<rparr>"

section \<open>Every stage is a row filter\<close>

lemma select_rows_map: "select_rows df (map P df) = filter P df"
  unfolding select_rows_def by (induction df) simp_all

lemma year_mask:
  "stage_mask lib C Year_Stage df = Inr (map (spec_year_in_range C) df)"
proof -
  have "and_series (ge_series (map year df) (fst (year_range C)))
                   (le_series (map year df) (snd (year_range C)))
        = map (spec_year_in_range C) df"
    unfolding ge_series_def le_series_def and_series_def spec_year_in_range_def
    by (induction df) simp_all
  then show ?thesis by simp
qed

lemma genre_mask:
  "stage_mask lib C Genre_Stage df =
     Inr (map (\<lambda>row. genre row \<in> set (selected_genres C)) df)"
  by (simp add: isin_def comp_def)

lemma str_contains_map:
  "str_contains lib column (map f df) pat =
     (case str_failure lib column (map f df) pat of
        Some e \<Rightarrow> Inl e
      | None \<Rightarrow> Inr (map (\<lambda>row. cell_hit lib pat (f row)) df))"
  by (simp add: str_contains_def comp_def split: option.splits)

lemma stage_mask_Inr:
  assumes "applies C st" and "stage_mask lib C st df = Inr msk"
  shows "msk = map (stage_keeps lib C st) df"
proof (cases st)
  case Artist_Stage
  then show ?thesis
    using assms by (auto simp: str_contains_map split: option.splits)
next
  case Track_Stage
  then show ?thesis
    using assms by (auto simp: str_contains_map split: option.splits)
next
  case Year_Stage
  have "stage_keeps lib C Year_Stage = spec_year_in_range C" by (rule ext) simp
  with Year_Stage show ?thesis
    using assms(2) year_mask [of lib C df] by (simp del: stage_mask.simps)
next
  case Genre_Stage
  have "stage_keeps lib C Genre_Stage = (\<lambda>row. genre row \<in> set (selected_genres C))"
    using assms(1) Genre_Stage by (intro ext) simp
  with Genre_Stage show ?thesis
    using assms(2) genre_mask [of lib C df] by (simp del: stage_mask.simps)
qed

lemma stage_keeps_skipped: "\<not> applies C st \<Longrightarrow> stage_keeps lib C st row"
  by (cases st) simp_all

lemma run_stage_Inr:
  assumes "run_stage lib C st df = Inr R"
  shows "R = filter (stage_keeps lib C st) df"
proof (cases "applies C st")
  case False
  then show ?thesis
    using assms by (simp add: run_stage_def stage_keeps_skipped)
next
  case True
  then obtain msk where m: "stage_mask lib C st df = Inr msk" and R: "R = select_rows df msk"
    using assms by (auto simp: run_stage_def split: sum.splits)
  show ?thesis
    unfolding R stage_mask_Inr [OF True m] by (rule select_rows_map)
qed

lemma run_stages_Inr:
  "run_stages lib C sts df = Inr R \<Longrightarrow>
   R = filter (\<lambda>row. \<forall>st \<in> set sts. stage_keeps lib C st row) df"
proof (induction sts arbitrary: df)
  case Nil
  then show ?case by simp
next
  case (Cons st sts)
  then obtain df1 where s1: "run_stage lib C st df = Inr df1"
    and rest: "run_stages lib C sts df1 = Inr R"
    by (auto split: sum.splits)
  have "R = filter (\<lambda>row. \<forall>st \<in> set sts. stage_keeps lib C st row) df1"
    by (rule Cons.IH [OF rest])
  then show ?case
    unfolding run_stage_Inr [OF s1] by (simp add: conj_commute)
qed

lemma row_of_result_kept:
  assumes "run_stages lib C sts df = Inr R" and "st \<in> set sts" and "row \<in> set R"
  shows "stage_keeps lib C st row"
  using run_stages_Inr [OF assms(1)] assms(2,3) by auto

section \<open>A stable library returns again on what it returned\<close>

lemma stage_failure_sub:
  assumes "stable lib" and "subseq df' df" and "applies C st"
    and "stage_mask lib C st df = Inr msk"
  shows "\<exists>msk'. stage_mask lib C st df' = Inr msk'"
proof (cases st)
  case Artist_Stage
  have sub: "subseq (map artist_name df') (map artist_name df)"
    using assms(2) by (rule subseq_map)
  have "str_failure lib Artist_Column (map artist_name df) (artist_query C) = None"
    using assms(4) Artist_Stage by (simp add: str_contains_def split: option.splits)
  then have "str_failure lib Artist_Column (map artist_name df') (artist_query C) = None"
    using assms(1) sub unfolding stable_def by blast
  then show ?thesis using Artist_Stage by (simp add: str_contains_def)
next
  case Track_Stage
  have sub: "subseq (map track_name df') (map track_name df)"
    using assms(2) by (rule subseq_map)
  have "str_failure lib Track_Column (map track_name df) (track_query C) = None"
    using assms(4) Track_Stage by (simp add: str_contains_def split: option.splits)
  then have "str_failure lib Track_Column (map track_name df') (track_query C) = None"
    using assms(1) sub unfolding stable_def by blast
  then show ?thesis using Track_Stage by (simp add: str_contains_def)
next
  case Year_Stage
  then show ?thesis by simp
next
  case Genre_Stage
  then show ?thesis by simp
qed

lemma run_stage_sub:
  assumes "stable lib" and "subseq df' df" and "run_stage lib C st df = Inr R"
  shows "run_stage lib C st df' = Inr (filter (stage_keeps lib C st) df')"
proof (cases "applies C st")
  case False
  then show ?thesis by (simp add: run_stage_def stage_keeps_skipped)
next
  case True
  then obtain msk where "stage_mask lib C st df = Inr msk"
    using assms(3) by (auto simp: run_stage_def split: sum.splits)
  from stage_failure_sub [OF assms(1,2) True this]
  obtain msk' where m': "stage_mask lib C st df' = Inr msk'" ..
  have "run_stage lib C st df' = Inr (select_rows df' msk')"
    using True m' by (simp add: run_stage_def)
  then show ?thesis by (simp add: run_stage_Inr)
qed

lemma run_stages_sub:
  assumes "stable lib"
  shows "subseq df' df \<Longrightarrow> run_stages lib C sts df = Inr R \<Longrightarrow>
         run_stages lib C sts df' =
           Inr (filter (\<lambda>row. \<forall>st \<in> set sts. stage_keeps lib C st row) df')"
proof (induction sts arbitrary: df df')
  case Nil
  then show ?case by simp
next
  case (Cons st sts)
  from Cons.prems(2) obtain df1 where s1: "run_stage lib C st df = Inr df1"
    and rest: "run_stages lib C sts df1 = Inr R"
    by (auto split: sum.splits)
  have d1: "df1 = filter (stage_keeps lib C st) df" by (rule run_stage_Inr [OF s1])
  have s1': "run_stage lib C st df' = Inr (filter (stage_keeps lib C st) df')"
    by (rule run_stage_sub [OF assms Cons.prems(1) s1])
  have sub1: "subseq (filter (stage_keeps lib C st) df') df1"
    unfolding d1 using Cons.prems(1) by (rule subseq_filter)
  show ?case
    using Cons.IH [OF sub1 rest] s1' by (simp add: conj_commute)
qed

lemma subseq_cells: "subseq col' col \<Longrightarrow> set col' \<subseteq> set col"
  by (induction rule: list_emb.induct) auto

lemma has_text_sub: "subseq col' col \<Longrightarrow> has_text col' \<Longrightarrow> has_text col"
  using subseq_cells [of col' col] by (auto simp: has_text_def list_ex_iff)

lemma has_number_sub: "subseq col' col \<Longrightarrow> has_number col' \<Longrightarrow> has_number col"
  using subseq_cells [of col' col] by (auto simp: has_number_def list_ex_iff)

lemma lazy_library_stable: "stable lazy_library"
  unfolding stable_def
proof (intro allI impI, elim conjE)
  fix column col col' pat
  assume sub: "subseq col' col"
    and ok: "str_failure lazy_library column col pat = None"
  have t: "has_text col' \<Longrightarrow> has_text col" using sub by (rule has_text_sub)
  have n: "has_number col' \<Longrightarrow> has_number col" using sub by (rule has_number_sub)
  have e: "col = [] \<Longrightarrow> col' = []" using sub by auto
  show "str_failure lazy_library column col' pat = None"
    using ok t n e
    by (auto simp: str_failure_def lazy_library_def split: if_splits option.splits)
qed

section \<open>Queries of ordinary characters\<close>

text \<open>
  A query none of whose characters is special compiles to the sequence of its
  characters as literals, and searching for that sequence is the search for a
  contiguous part of the text after lower-casing both.
\<close>

lemma ordinary_not_structural:
  assumes "c \<notin> set special_characters"
  shows "c \<noteq> CHR ''('' \<and> c \<noteq> CHR '')'' \<and> c \<noteq> CHR ''.'' \<and> c \<noteq> CHR ''^'' \<and> c \<noteq> CHR ''$''"
  using assms by (auto simp: special_characters_def)

lemma parse_plain:
  "list_all (\<lambda>c. c \<notin> set special_characters) cs \<Longrightarrow>
   parse cur stack cs = parse (rev (map Literal cs) @ cur) stack []"
proof (induction cs arbitrary: cur)
  case Nil
  then show ?case by simp
next
  case (Cons c cs)
  have notin: "c \<notin> set special_characters"
    and rest: "list_all (\<lambda>c. c \<notin> set special_characters) cs"
    using Cons.prems by simp_all
  have "parse cur stack (c # cs) = parse (Literal c # cur) stack cs"
    using ordinary_not_structural [OF notin] by simp
  also have "\<dots> = parse (rev (map Literal cs) @ Literal c # cur) stack []"
    by (rule Cons.IH [OF rest])
  finally show ?case by simp
qed

lemma re_compile_plain:
  assumes "plain q"
  shows "re_compile q = Some (sequence (map Literal q))"
proof -
  have "list_all (\<lambda>c. c \<notin> set special_characters) q"
    using assms by (simp add: plain_def)
  from parse_plain [OF this, of "[]" "[]"] show ?thesis
    by (simp add: re_compile_def)
qed

lemma plain_portable: "plain q \<Longrightarrow> portable q"
  by (auto simp: plain_def portable_def portable_char_def list_all_iff)

lemma match_at_sequence_Cons:
  "match_at (sequence (r # rs)) p =
     (case match_at r p of None \<Rightarrow> None | Some p' \<Rightarrow> match_at (sequence rs) p')"
  by (cases rs) (simp_all split: option.splits)

lemma match_at_literals:
  "match_at (sequence (map Literal cs)) (b, s) =
     (if prefix (map lower_char cs) (map lower_char s)
      then Some (b \<and> cs = [], drop (length cs) s) else None)"
proof (induction cs arbitrary: b s)
  case Nil
  then show ?case by simp
next
  case (Cons c cs)
  show ?case
  proof (cases s)
    case Nil
    then show ?thesis by (simp add: match_at_sequence_Cons del: sequence.simps)
  next
    case (Cons x xs)
    then show ?thesis
      using Cons.IH [of False xs]
      by (simp add: match_at_sequence_Cons del: sequence.simps)
  qed
qed

lemma search_from_literals:
  "cs \<noteq> [] \<Longrightarrow>
   search_from (sequence (map Literal cs)) b s = sublist (map lower_char cs) (map lower_char s)"
proof (induction s arbitrary: b)
  case Nil
  then show ?case by (simp add: match_at_literals)
next
  case (Cons x xs)
  then show ?case
    by (auto simp: match_at_literals sublist_Cons_right)
qed

lemma cell_hit_plain:
  assumes "plain q"
  shows "cell_hit lib q c = spec_cell_contains_ci q c"
proof -
  have ne: "q \<noteq> []" using assms by (simp add: plain_def)
  show ?thesis
    by (cases c)
       (simp_all add: cell_hit_def spec_cell_contains_ci_def text_hit_def assms
          plain_portable [OF assms] re_compile_plain [OF assms] re_search_def
          search_from_literals [OF ne] spec_contains_ci_def)
qed

lemma str_failure_plain:
  assumes "plain q" and "has_text col" and "\<not> has_number col"
  shows "str_failure lib column col q = None"
  using assms by (simp add: str_failure_def plain_portable re_compile_plain)

lemma cell_hit_is_text: "cell_hit lib q c \<Longrightarrow> is_text c"
  by (cases c) (simp_all add: cell_hit_def)

section \<open>The store is only extended\<close>

lemma run_stage_store_frame:
  assumes "run_stage_store lib C st r s = (res, s')" and "n \<le> r" and "r < next_id s"
  shows "next_id s \<le> next_id s'
         \<and> (\<forall>i < next_id s. frames s' i = frames s i)
         \<and> (case res of
               Inl e \<Rightarrow> run_stage lib C st (frames s r) = Inl e
             | Inr r' \<Rightarrow> n \<le> r' \<and> r' < next_id s'
                         \<and> run_stage lib C st (frames s r) = Inr (frames s' r'))"
proof (cases "applies C st")
  case False
  then show ?thesis using assms by (auto simp: run_stage_store_def run_stage_def)
next
  case True
  show ?thesis
  proof (cases "stage_mask lib C st (frames s r)")
    case (Inl e)
    then show ?thesis using assms True by (auto simp: run_stage_store_def run_stage_def)
  next
    case (Inr msk)
    then show ?thesis
      using assms True
      by (auto simp: run_stage_store_def run_stage_def df_getitem_def allocate_def)
  qed
qed

lemma run_stages_store_frame:
  assumes "run_stages_store lib C sts r s = (res, s')" and "n \<le> r" and "r < next_id s"
  shows "next_id s \<le> next_id s'
         \<and> (\<forall>i < next_id s. frames s' i = frames s i)
         \<and> (case res of
               Inl e \<Rightarrow> run_stages lib C sts (frames s r) = Inl e
             | Inr r' \<Rightarrow> n \<le> r' \<and> r' < next_id s'
                         \<and> run_stages lib C sts (frames s r) = Inr (frames s' r'))"
  using assms
proof (induction sts arbitrary: r s)
  case Nil
  then show ?case by auto
next
  case (Cons st sts)
  obtain res1 s1 where step: "run_stage_store lib C st r s = (res1, s1)"
    by (cases "run_stage_store lib C st r s")
  note f1 = run_stage_store_frame [OF step Cons.prems(2) Cons.prems(3)]
  show ?case
  proof (cases res1)
    case (Inl e)
    then show ?thesis using Cons.prems(1) step f1 by auto
  next
    case (Inr r1)
    then have rest: "run_stages_store lib C sts r1 s1 = (res, s')"
      using Cons.prems(1) step by simp
    have b1: "n \<le> r1" and b2: "r1 < next_id s1"
      and v1: "run_stage lib C st (frames s r) = Inr (frames s1 r1)"
      using f1 Inr by simp_all
    note f2 = Cons.IH [OF rest b1 b2]
    have mono: "next_id s \<le> next_id s'" using f1 f2 by simp
    have keep: "\<forall>i < next_id s. frames s' i = frames s i" using f1 f2 by auto
    have val: "case res of
               Inl e \<Rightarrow> run_stages lib C (st # sts) (frames s r) = Inl e
             | Inr r' \<Rightarrow> n \<le> r' \<and> r' < next_id s'
                         \<and> run_stages lib C (st # sts) (frames s r) = Inr (frames s' r')"
      using f2 v1 by (cases res) simp_all
    from mono keep val show ?thesis by blast
  qed
qed

section \<open>The years of a dataset\<close>




section \<open>Orders of the stages\<close>

lemma permuted_same_stages: "mset order = mset source_order \<Longrightarrow> set order = set source_order"
  by (rule mset_eq_setD)

lemma run_stages_all_return:
  assumes "stable lib" and "\<forall>st. \<exists>R. run_stage lib C st D = Inr R"
  shows "subseq df D \<Longrightarrow> \<exists>R. run_stages lib C sts df = Inr R"
proof (induction sts arbitrary: df)
  case Nil
  then show ?case by simp
next
  case (Cons st sts)
  obtain R0 where r0: "run_stage lib C st D = Inr R0" using assms(2) by blast
  have s1: "run_stage lib C st df = Inr (filter (stage_keeps lib C st) df)"
    by (rule run_stage_sub [OF assms(1) Cons.prems r0])
  have "subseq (filter (stage_keeps lib C st) df) df" by simp
  then have "subseq (filter (stage_keeps lib C st) df) D"
    using Cons.prems by (rule subseq_order.trans)
  from Cons.IH [OF this] show ?case using s1 by simp
qed

section \<open>Properties of the filter\<close>

text \<open>
  C2.  Whenever the filter returns a frame, that frame is a subsequence of the
  dataset it was given: its rows are rows of the dataset, in the same relative
  order.  This holds for every library and every query.  (When a stage raises,
  there is no result.)
\<close>

theorem result_is_subsequence:
  "apply_filters lib D C = Inr R \<Longrightarrow> subseq R D \<and> set R \<subseteq> set D"
proof -
  assume "apply_filters lib D C = Inr R"
  then have "R = filter (\<lambda>row. \<forall>st \<in> set source_order. stage_keeps lib C st row) D"
    unfolding apply_filters_def by (rule run_stages_Inr)
  then show "subseq R D \<and> set R \<subseteq> set D" by auto
qed

theorem result_is_subsequence_witness:
  "apply_filters lazy_library scenario_dataset scenario_criteria = Inr [row_abc]
   \<and> subseq [row_abc] scenario_dataset \<and> set [row_abc] \<subseteq> set scenario_dataset"
proof -
  have h: "apply_filters lazy_library scenario_dataset scenario_criteria = Inr [row_abc]"
    by code_simp
  show ?thesis using h result_is_subsequence [OF h] by simp
qed

text \<open>
  C6.  Filtering is idempotent: with a stable library, filtering the result again
  with the same criteria gives the same outcome as filtering once.  When the first
  run raises, so does the composition, with the same exception.
\<close>

theorem filtering_idempotent:
  assumes "stable lib"
  shows "and_then (apply_filters lib D C) (\<lambda>R. apply_filters lib R C) = apply_filters lib D C"
proof (cases "apply_filters lib D C")
  case (Inl e)
  then show ?thesis by (simp add: and_then_def)
next
  case (Inr R)
  let ?Q = "\<lambda>row. \<forall>st \<in> set source_order. stage_keeps lib C st row"
  have run: "run_stages lib C source_order D = Inr R"
    using Inr by (simp add: apply_filters_def)
  have R: "R = filter ?Q D" by (rule run_stages_Inr [OF run])
  have sub: "subseq R D" unfolding R by simp
  have "run_stages lib C source_order R = Inr (filter ?Q R)"
    by (rule run_stages_sub [OF assms sub run])
  moreover have "filter ?Q R = R" unfolding R by simp
  ultimately have "apply_filters lib R C = Inr R" by (simp add: apply_filters_def)
  then show ?thesis using Inr by (simp add: and_then_def)
qed

theorem filtering_idempotent_witness:
  "stable lazy_library
   \<and> apply_filters lazy_library scenario_dataset
        \<lparr>artist_query = ''zz'', track_query = ''AC(DC'', year_range = (2000, 2010),
         selected_genres = [''Pop'', ''Rock'']\<rparr> = Inr []
   \<and> apply_filters lazy_library []
        \<lparr>artist_query = ''zz'', track_query = ''AC(DC'', year_range = (2000, 2010),
         selected_genres = [''Pop'', ''Rock'']\<rparr> = Inr []"
proof -
  let ?C = "\<lparr>artist_query = ''zz'', track_query = ''AC(DC'', year_range = (2000, 2010),
             selected_genres = [''Pop'', ''Rock'']\<rparr>"
  have a: "apply_filters lazy_library scenario_dataset ?C = Inr []" by code_simp
  show ?thesis
    using lazy_library_stable a
      filtering_idempotent [OF lazy_library_stable, of scenario_dataset ?C]
    by (simp add: and_then_def)
qed

text \<open>
  C7, as the code has it.  Any two of the 24 orders of the four stages that both
  return a frame return the same frame.  With a stable library, when each stage
  alone returns on the dataset, every order returns.  Whether an order raises can
  depend on the order.
\<close>

theorem orders_agree:
  assumes "mset order1 = mset source_order" and "mset order2 = mset source_order"
  shows "(run_stages lib C order1 D = Inr R1 \<and> run_stages lib C order2 D = Inr R2
            \<longrightarrow> R1 = R2)
         \<and> (stable lib \<and> (\<forall>st. \<exists>R. run_stage lib C st D = Inr R)
            \<longrightarrow> (\<exists>R. run_stages lib C order1 D = Inr R \<and> run_stages lib C order2 D = Inr R))"
proof -
  have same: "set order1 = set order2"
    unfolding permuted_same_stages [OF assms(1)] permuted_same_stages [OF assms(2)] ..
  have first: "run_stages lib C order1 D = Inr R1 \<and> run_stages lib C order2 D = Inr R2
            \<longrightarrow> R1 = R2"
  proof
    assume b: "run_stages lib C order1 D = Inr R1 \<and> run_stages lib C order2 D = Inr R2"
    have "R1 = filter (\<lambda>row. \<forall>st \<in> set order1. stage_keeps lib C st row) D"
      by (rule run_stages_Inr [OF conjunct1 [OF b]])
    moreover have "R2 = filter (\<lambda>row. \<forall>st \<in> set order2. stage_keeps lib C st row) D"
      by (rule run_stages_Inr [OF conjunct2 [OF b]])
    ultimately show "R1 = R2" unfolding same by (rule trans [OF _ sym])
  qed
  have second: "stable lib \<and> (\<forall>st. \<exists>R. run_stage lib C st D = Inr R)
            \<longrightarrow> (\<exists>R. run_stages lib C order1 D = Inr R \<and> run_stages lib C order2 D = Inr R)"
  proof
    assume h: "stable lib \<and> (\<forall>st. \<exists>R. run_stage lib C st D = Inr R)"
    have refl: "subseq D D" by simp
    obtain Ra where a: "run_stages lib C order1 D = Inr Ra"
      using run_stages_all_return [OF conjunct1 [OF h] conjunct2 [OF h] refl] by blast
    obtain Rb where b: "run_stages lib C order2 D = Inr Rb"
      using run_stages_all_return [OF conjunct1 [OF h] conjunct2 [OF h] refl] by blast
    have "Ra = filter (\<lambda>row. \<forall>st \<in> set order1. stage_keeps lib C st row) D"
      by (rule run_stages_Inr [OF a])
    moreover have "Rb = filter (\<lambda>row. \<forall>st \<in> set order2. stage_keeps lib C st row) D"
      by (rule run_stages_Inr [OF b])
    ultimately have "Ra = Rb" unfolding same by (rule trans [OF _ sym])
    then show "\<exists>R. run_stages lib C order1 D = Inr R \<and> run_stages lib C order2 D = Inr R"
      using a b by blast
  qed
  from first second show ?thesis by blast
qed

theorem orders_agree_witness:
  "mset [Genre_Stage, Year_Stage, Track_Stage, Artist_Stage] = mset source_order
   \<and> mset [Track_Stage, Artist_Stage, Year_Stage, Genre_Stage] = mset source_order
   \<and> stable lazy_library
   \<and> run_stages lazy_library scenario_criteria
        [Genre_Stage, Year_Stage, Track_Stage, Artist_Stage] scenario_dataset = Inr [row_abc]
   \<and> run_stages lazy_library scenario_criteria
        [Track_Stage, Artist_Stage, Year_Stage, Genre_Stage] scenario_dataset = Inr [row_abc]"
proof -
  have h1: "mset [Genre_Stage, Year_Stage, Track_Stage, Artist_Stage] = mset source_order"
    by (simp add: source_order_def)
  have h2: "mset [Track_Stage, Artist_Stage, Year_Stage, Genre_Stage] = mset source_order"
    by (simp add: source_order_def)
  have a: "run_stages lazy_library scenario_criteria
        [Genre_Stage, Year_Stage, Track_Stage, Artist_Stage] scenario_dataset = Inr [row_abc]"
    by code_simp
  have each: "\<forall>st. \<exists>R. run_stage lazy_library scenario_criteria st scenario_dataset = Inr R"
  proof
    fix st
    have "run_stage lazy_library scenario_criteria Artist_Stage scenario_dataset
            = Inr [row_abc]"
      and "run_stage lazy_library scenario_criteria Track_Stage scenario_dataset
            = Inr scenario_dataset"
      and "run_stage lazy_library scenario_criteria Year_Stage scenario_dataset
            = Inr scenario_dataset"
      and "run_stage lazy_library scenario_criteria Genre_Stage scenario_dataset
            = Inr scenario_dataset"
      by code_simp+
    then show "\<exists>R. run_stage lazy_library scenario_criteria st scenario_dataset = Inr R"
      by (cases st) blast+
  qed
  note t = orders_agree [OF h1 h2, of lazy_library scenario_criteria scenario_dataset
        "[row_abc]" "[row_abc]"]
  have "\<exists>R. run_stages lazy_library scenario_criteria
              [Genre_Stage, Year_Stage, Track_Stage, Artist_Stage] scenario_dataset = Inr R
          \<and> run_stages lazy_library scenario_criteria
              [Track_Stage, Artist_Stage, Year_Stage, Genre_Stage] scenario_dataset = Inr R"
    by (rule mp [OF conjunct2 [OF t] conjI [OF lazy_library_stable each]])
  then have b: "run_stages lazy_library scenario_criteria
        [Track_Stage, Artist_Stage, Year_Stage, Genre_Stage] scenario_dataset = Inr [row_abc]"
    unfolding a by simp
  from h1 h2 lazy_library_stable a b show ?thesis by (intro conjI)
qed

text \<open>
  The claim that every order yields the same final result fails where a query is
  not a valid pattern and the library compiles a pattern only when there are
  cells to search: with the artist query \<^verbatim>\<open>zz\<close> and the track query \<^verbatim>\<open>AC(DC\<close> the
  order of the source returns the empty frame (the artist stage leaves no row, so
  the track stage has nothing to search), while the order that starts with the
  track stage raises.
\<close>

theorem stage_order_counterexample:
  "mset [Track_Stage, Artist_Stage, Year_Stage, Genre_Stage] = mset source_order
   \<and> run_stages lazy_library
        \<lparr>artist_query = ''zz'', track_query = ''AC(DC'', year_range = (2000, 2010),
         selected_genres = [''Pop'', ''Rock'']\<rparr>
        source_order scenario_dataset = Inr []
   \<and> run_stages lazy_library
        \<lparr>artist_query = ''zz'', track_query = ''AC(DC'', year_range = (2000, 2010),
         selected_genres = [''Pop'', ''Rock'']\<rparr>
        [Track_Stage, Artist_Stage, Year_Stage, Genre_Stage] scenario_dataset
      = Inl (Pattern_Error ''AC(DC'')"
proof -
  have "mset [Track_Stage, Artist_Stage, Year_Stage, Genre_Stage] = mset source_order"
    by (simp add: source_order_def)
  moreover have "run_stages lazy_library
        \<lparr>artist_query = ''zz'', track_query = ''AC(DC'', year_range = (2000, 2010),
         selected_genres = [''Pop'', ''Rock'']\<rparr>
        source_order scenario_dataset = Inr []"
    by code_simp
  moreover have "run_stages lazy_library
        \<lparr>artist_query = ''zz'', track_query = ''AC(DC'', year_range = (2000, 2010),
         selected_genres = [''Pop'', ''Rock'']\<rparr>
        [Track_Stage, Artist_Stage, Year_Stage, Genre_Stage] scenario_dataset
      = Inl (Pattern_Error ''AC(DC'')"
    by code_simp
  ultimately show ?thesis by (intro conjI)
qed

text \<open>
  C5.  The year stage has no guard: it always runs, and it keeps exactly the rows
  whose year lies between the two bounds, both bounds included.  So every row of
  a frame the filter returns has its year within the bounds.
\<close>

theorem year_stage_inclusive:
  "run_stage lib C Year_Stage df = Inr (filter (spec_year_in_range C) df)
   \<and> (apply_filters lib D C = Inr R \<longrightarrow>
        (\<forall>row \<in> set R. fst (year_range C) \<le> year row \<and> year row \<le> snd (year_range C)))"
proof
  show "run_stage lib C Year_Stage df = Inr (filter (spec_year_in_range C) df)"
    by (simp add: run_stage_def year_mask select_rows_map del: stage_mask.simps)
next
  show "apply_filters lib D C = Inr R \<longrightarrow>
        (\<forall>row \<in> set R. fst (year_range C) \<le> year row \<and> year row \<le> snd (year_range C))"
  proof
    assume res: "apply_filters lib D C = Inr R"
    have "Year_Stage \<in> set source_order" by (simp add: source_order_def)
    then have "\<forall>row \<in> set R. stage_keeps lib C Year_Stage row"
      using res row_of_result_kept [of lib C source_order D R Year_Stage]
      by (auto simp: apply_filters_def)
    then show "\<forall>row \<in> set R. fst (year_range C) \<le> year row \<and> year row \<le> snd (year_range C)"
      by (simp add: spec_year_in_range_def)
  qed
qed

theorem year_stage_inclusive_witness:
  "run_stage lazy_library scenario_criteria Year_Stage scenario_dataset
     = Inr (filter (spec_year_in_range scenario_criteria) scenario_dataset)
   \<and> apply_filters lazy_library scenario_dataset scenario_criteria = Inr [row_abc]
   \<and> fst (year_range scenario_criteria) \<le> year row_abc
   \<and> year row_abc \<le> snd (year_range scenario_criteria)"
proof -
  have h: "apply_filters lazy_library scenario_dataset scenario_criteria = Inr [row_abc]"
    by code_simp
  show ?thesis
    using h year_stage_inclusive
      [of lazy_library scenario_criteria scenario_dataset scenario_dataset "[row_abc]"]
    by simp
qed

text \<open>
  C1, as the code has it.  The genre stage is guarded by \<^verbatim>\<open>if selected_genres:\<close>.
  With an empty selection the stage is skipped, and the filter returns what the
  artist, track and year stages leave; it does not return the empty frame.
\<close>

theorem empty_genres_skip_stage:
  "selected_genres C = [] \<Longrightarrow>
   apply_filters lib D C = run_stages lib C [Artist_Stage, Track_Stage, Year_Stage] D"
  by (simp add: apply_filters_def source_order_def run_stage_def split: sum.splits)

theorem empty_genres_skip_stage_witness:
  "selected_genres (scenario_criteria\<lparr>selected_genres := []\<rparr>) = []
   \<and> apply_filters lazy_library scenario_dataset
        (scenario_criteria\<lparr>selected_genres := []\<rparr>)
       = run_stages lazy_library (scenario_criteria\<lparr>selected_genres := []\<rparr>)
           [Artist_Stage, Track_Stage, Year_Stage] scenario_dataset
   \<and> apply_filters lazy_library scenario_dataset
        (scenario_criteria\<lparr>selected_genres := []\<rparr>)
       = Inr [row_abc]"
proof -
  have h: "selected_genres (scenario_criteria\<lparr>selected_genres := []\<rparr>) = []" by simp
  have a: "apply_filters lazy_library scenario_dataset
             (scenario_criteria\<lparr>selected_genres := []\<rparr>) = Inr [row_abc]"
    by code_simp
  show ?thesis
    using h a empty_genres_skip_stage [OF h, of lazy_library scenario_dataset] by simp
qed

text \<open>
  The claim that an empty genre selection empties the result fails on the
  scenario's two-row dataset: with no text query, the slider untouched (2000 to
  2010) and the genre selection cleared, the widgets hold criteria with an empty
  selection, the filter returns both rows, and the page shows them.
\<close>

theorem empty_genres_counterexample:
  "collect_criteria scenario_dataset (untouched\<lparr>genres_input := Some []\<rparr>)
     = Inr \<lparr>artist_query = [], track_query = [], year_range = (2000, 2010),
            selected_genres = []\<rparr>
   \<and> apply_filters lazy_library scenario_dataset
        \<lparr>artist_query = [], track_query = [], year_range = (2000, 2010),
         selected_genres = []\<rparr>
      = Inr scenario_dataset
   \<and> scenario_dataset = [row_abc, row_xyz]
   \<and> Show_Dataframe scenario_dataset
        \<in> set (fst (main lazy_library (files_with scenario_dataset)
                      (untouched\<lparr>genres_input := Some []\<rparr>)))"
proof -
  have "collect_criteria scenario_dataset (untouched\<lparr>genres_input := Some []\<rparr>)
     = Inr \<lparr>artist_query = [], track_query = [], year_range = (2000, 2010),
            selected_genres = []\<rparr>"
    by code_simp
  moreover have "apply_filters lazy_library scenario_dataset
        \<lparr>artist_query = [], track_query = [], year_range = (2000, 2010),
         selected_genres = []\<rparr>
      = Inr scenario_dataset"
    by code_simp
  moreover have "scenario_dataset = [row_abc, row_xyz]" by (simp add: scenario_dataset_def)
  moreover have "Show_Dataframe scenario_dataset
        \<in> set (fst (main lazy_library (files_with scenario_dataset)
                      (untouched\<lparr>genres_input := Some []\<rparr>)))"
    by code_simp
  ultimately show ?thesis by (intro conjI)
qed




text \<open>
  C4, as the code has it.  For a non-empty query of ordinary characters and a
  frame whose artist column holds a text and no number (so that \<^verbatim>\<open>.str\<close> exists),
  the artist stage keeps exactly the rows whose artist cell is a text that
  contains the query as a case-insensitive substring; the track stage does the
  same on the track column.  For every non-empty query on which a text stage
  returns, no row with a missing cell in that column is kept.
\<close>

theorem plain_query_is_substring_match:
  "(plain (artist_query C) \<and> has_text (map artist_name df)
      \<and> \<not> has_number (map artist_name df) \<longrightarrow>
      run_stage lib C Artist_Stage df =
        Inr (filter (\<lambda>row. spec_cell_contains_ci (artist_query C) (artist_name row)) df))
   \<and> (plain (track_query C) \<and> has_text (map track_name df)
      \<and> \<not> has_number (map track_name df) \<longrightarrow>
      run_stage lib C Track_Stage df =
        Inr (filter (\<lambda>row. spec_cell_contains_ci (track_query C) (track_name row)) df))
   \<and> (artist_query C \<noteq> [] \<and> run_stage lib C Artist_Stage df = Inr R \<longrightarrow>
        (\<forall>row \<in> set R. artist_name row \<noteq> Missing))
   \<and> (track_query C \<noteq> [] \<and> run_stage lib C Track_Stage df = Inr R' \<longrightarrow>
        (\<forall>row \<in> set R'. track_name row \<noteq> Missing))"
proof (intro conjI impI)
  assume a: "plain (artist_query C) \<and> has_text (map artist_name df)
      \<and> \<not> has_number (map artist_name df)"
  then have q: "plain (artist_query C)" and ne: "artist_query C \<noteq> []"
    by (simp_all add: plain_def)
  have f: "str_failure lib Artist_Column (map artist_name df) (artist_query C) = None"
    using a by (simp add: str_failure_plain)
  show "run_stage lib C Artist_Stage df =
        Inr (filter (\<lambda>row. spec_cell_contains_ci (artist_query C) (artist_name row)) df)"
    using ne by (simp add: run_stage_def str_contains_map f cell_hit_plain [OF q] select_rows_map)
next
  assume a: "plain (track_query C) \<and> has_text (map track_name df)
      \<and> \<not> has_number (map track_name df)"
  then have q: "plain (track_query C)" and ne: "track_query C \<noteq> []"
    by (simp_all add: plain_def)
  have f: "str_failure lib Track_Column (map track_name df) (track_query C) = None"
    using a by (simp add: str_failure_plain)
  show "run_stage lib C Track_Stage df =
        Inr (filter (\<lambda>row. spec_cell_contains_ci (track_query C) (track_name row)) df)"
    using ne by (simp add: run_stage_def str_contains_map f cell_hit_plain [OF q] select_rows_map)
next
  assume a: "artist_query C \<noteq> [] \<and> run_stage lib C Artist_Stage df = Inr R"
  have "R = filter (stage_keeps lib C Artist_Stage) df"
    by (rule run_stage_Inr [OF conjunct2 [OF a]])
  then have "\<forall>row \<in> set R. cell_hit lib (artist_query C) (artist_name row)"
    using a by simp
  then show "\<forall>row \<in> set R. artist_name row \<noteq> Missing"
    using cell_hit_is_text by fastforce
next
  assume a: "track_query C \<noteq> [] \<and> run_stage lib C Track_Stage df = Inr R'"
  have "R' = filter (stage_keeps lib C Track_Stage) df"
    by (rule run_stage_Inr [OF conjunct2 [OF a]])
  then have "\<forall>row \<in> set R'. cell_hit lib (track_query C) (track_name row)"
    using a by simp
  then show "\<forall>row \<in> set R'. track_name row \<noteq> Missing"
    using cell_hit_is_text by fastforce
qed

theorem plain_query_is_substring_match_witness:
  "plain (artist_query (scenario_criteria\<lparr>track_query := ''x''\<rparr>))
   \<and> plain (track_query (scenario_criteria\<lparr>track_query := ''x''\<rparr>))
   \<and> has_text (map artist_name
        [row_abc, row_xyz, row_xyz\<lparr>artist_name := Missing, track_name := Missing\<rparr>])
   \<and> has_text (map track_name
        [row_abc, row_xyz, row_xyz\<lparr>artist_name := Missing, track_name := Missing\<rparr>])
   \<and> run_stage lazy_library (scenario_criteria\<lparr>track_query := ''x''\<rparr>) Artist_Stage
        [row_abc, row_xyz, row_xyz\<lparr>artist_name := Missing, track_name := Missing\<rparr>]
       = Inr [row_abc]
   \<and> run_stage lazy_library (scenario_criteria\<lparr>track_query := ''x''\<rparr>) Track_Stage
        [row_abc, row_xyz, row_xyz\<lparr>artist_name := Missing, track_name := Missing\<rparr>]
       = Inr [row_abc]
   \<and> filter (\<lambda>row. spec_cell_contains_ci ''ab'' (artist_name row))
        [row_abc, row_xyz, row_xyz\<lparr>artist_name := Missing, track_name := Missing\<rparr>] = [row_abc]
   \<and> filter (\<lambda>row. spec_cell_contains_ci ''x'' (track_name row))
        [row_abc, row_xyz, row_xyz\<lparr>artist_name := Missing, track_name := Missing\<rparr>] = [row_abc]
   \<and> artist_name row_abc \<noteq> Missing \<and> track_name row_abc \<noteq> Missing"
proof -
  let ?C = "scenario_criteria\<lparr>track_query := ''x''\<rparr>"
  let ?df = "[row_abc, row_xyz, row_xyz\<lparr>artist_name := Missing, track_name := Missing\<rparr>]"
  have qa: "artist_query ?C = ''ab''" and qt: "track_query ?C = ''x''"
    by (simp_all add: scenario_criteria_def)
  have h1: "plain (artist_query ?C)" and h2: "plain (track_query ?C)"
    unfolding qa qt by code_simp+
  have h3: "has_text (map artist_name ?df)" and h4: "has_text (map track_name ?df)"
    by code_simp+
  have h5: "\<not> has_number (map artist_name ?df)" and h6: "\<not> has_number (map track_name ?df)"
    by code_simp+
  have a: "run_stage lazy_library ?C Artist_Stage ?df = Inr [row_abc]" by code_simp
  have t: "run_stage lazy_library ?C Track_Stage ?df = Inr [row_abc]" by code_simp
  note th = plain_query_is_substring_match
    [of ?C ?df lazy_library "[row_abc]" "[row_abc]"]
  have fa: "filter (\<lambda>row. spec_cell_contains_ci ''ab'' (artist_name row)) ?df = [row_abc]"
    using mp [OF conjunct1 [OF th] conjI [OF h1 conjI [OF h3 h5]]]
    unfolding a qa by simp
  have ft: "filter (\<lambda>row. spec_cell_contains_ci ''x'' (track_name row)) ?df = [row_abc]"
    using mp [OF conjunct1 [OF conjunct2 [OF th]] conjI [OF h2 conjI [OF h4 h6]]]
    unfolding t qt by simp
  have ma: "artist_name row_abc \<noteq> Missing" and mt: "track_name row_abc \<noteq> Missing"
    by (simp_all add: row_abc_def)
  from h1 h2 h3 h4 a t fa ft ma mt show ?thesis by (intro conjI)
qed

text \<open>
  The substring contract fails for a query with a special character: the artist
  cell \<^verbatim>\<open>Ke$ha\<close> contains the query \<^verbatim>\<open>Ke$ha\<close>, yet the stage drops the row, since
  \<^verbatim>\<open>$\<close> in a pattern stands for the end of the text; the page reports that no song
  was found.
\<close>

theorem substring_contract_counterexample:
  "kesha_dataset = [row_abc, row_kesha]
   \<and> artist_name row_kesha = Text ''Ke$ha''
   \<and> spec_cell_contains_ci ''Ke$ha'' (artist_name row_kesha)
   \<and> collect_criteria kesha_dataset (untouched\<lparr>artist_input := ''Ke$ha''\<rparr>)
       = Inr \<lparr>artist_query = ''Ke$ha'', track_query = [], year_range = (2000, 2010),
              selected_genres = [''Pop'']\<rparr>
   \<and> run_stage lazy_library
        \<lparr>artist_query = ''Ke$ha'', track_query = [], year_range = (2000, 2010),
         selected_genres = [''Pop'']\<rparr> Artist_Stage kesha_dataset = Inr []
   \<and> Error_Msg no_songs_message
        \<in> set (fst (main lazy_library (files_with kesha_dataset)
                      (untouched\<lparr>artist_input := ''Ke$ha''\<rparr>)))"
proof -
  have "kesha_dataset = [row_abc, row_kesha]" by (simp add: kesha_dataset_def)
  moreover have "artist_name row_kesha = Text ''Ke$ha''" by (simp add: row_kesha_def)
  moreover have "spec_cell_contains_ci ''Ke$ha'' (artist_name row_kesha)" by code_simp
  moreover have "collect_criteria kesha_dataset (untouched\<lparr>artist_input := ''Ke$ha''\<rparr>)
       = Inr \<lparr>artist_query = ''Ke$ha'', track_query = [], year_range = (2000, 2010),
              selected_genres = [''Pop'']\<rparr>"
    by code_simp
  moreover have "run_stage lazy_library
        \<lparr>artist_query = ''Ke$ha'', track_query = [], year_range = (2000, 2010),
         selected_genres = [''Pop'']\<rparr> Artist_Stage kesha_dataset = Inr []"
    by code_simp
  moreover have "Error_Msg no_songs_message
        \<in> set (fst (main lazy_library (files_with kesha_dataset)
                      (untouched\<lparr>artist_input := ''Ke$ha''\<rparr>)))"
    by code_simp
  ultimately show ?thesis by (intro conjI)
qed

text \<open>
  C10.  The text queries are patterns, not literal substrings, whatever the
  library.  On the scenario's dataset the artist query \<^verbatim>\<open>a.c\<close> keeps the row whose
  artist is \<^verbatim>\<open>Abc\<close>, and the track query \<^verbatim>\<open>.\<close> keeps both rows, whose tracks are \<^verbatim>\<open>X\<close>
  and \<^verbatim>\<open>Y\<close>, though no cell contains the query.  The query \<^verbatim>\<open>AC(DC\<close> is not a valid
  pattern: on a dataset with a row whose artist and track are \<^verbatim>\<open>AC(DC\<close> both text
  stages raise instead of keeping that row.
\<close>

theorem queries_are_patterns:
  "run_stage lib
      \<lparr>artist_query = ''a.c'', track_query = [], year_range = (2000, 2010),
       selected_genres = [''Pop'', ''Rock'']\<rparr> Artist_Stage scenario_dataset = Inr [row_abc]
   \<and> artist_name row_abc = Text ''Abc''
   \<and> \<not> spec_contains_ci ''a.c'' ''Abc''
   \<and> run_stage lib
      \<lparr>artist_query = [], track_query = ''.'', year_range = (2000, 2010),
       selected_genres = [''Pop'', ''Rock'']\<rparr> Track_Stage scenario_dataset
      = Inr [row_abc, row_xyz]
   \<and> track_name row_abc = Text ''X'' \<and> track_name row_xyz = Text ''Y''
   \<and> \<not> spec_contains_ci ''.'' ''X'' \<and> \<not> spec_contains_ci ''.'' ''Y''
   \<and> run_stage lib
      \<lparr>artist_query = ''AC(DC'', track_query = [], year_range = (1980, 2000),
       selected_genres = [''Pop'', ''Rock'']\<rparr> Artist_Stage acdc_dataset
      = Inl (Pattern_Error ''AC(DC'')
   \<and> run_stage lib
      \<lparr>artist_query = [], track_query = ''AC(DC'', year_range = (1980, 2000),
       selected_genres = [''Pop'', ''Rock'']\<rparr> Track_Stage acdc_dataset
      = Inl (Pattern_Error ''AC(DC'')
   \<and> acdc_dataset = [row_abc, row_acdc]
   \<and> spec_cell_contains_ci ''AC(DC'' (artist_name row_acdc)
   \<and> spec_cell_contains_ci ''AC(DC'' (track_name row_acdc)"
proof -
  have "run_stage lib
      \<lparr>artist_query = ''a.c'', track_query = [], year_range = (2000, 2010),
       selected_genres = [''Pop'', ''Rock'']\<rparr> Artist_Stage scenario_dataset = Inr [row_abc]"
    by code_simp
  moreover have "artist_name row_abc = Text ''Abc''" by (simp add: row_abc_def)
  moreover have "\<not> spec_contains_ci ''a.c'' ''Abc''" by code_simp
  moreover have "run_stage lib
      \<lparr>artist_query = [], track_query = ''.'', year_range = (2000, 2010),
       selected_genres = [''Pop'', ''Rock'']\<rparr> Track_Stage scenario_dataset
      = Inr [row_abc, row_xyz]"
    by code_simp
  moreover have "track_name row_abc = Text ''X''" by (simp add: row_abc_def)
  moreover have "track_name row_xyz = Text ''Y''" by (simp add: row_xyz_def)
  moreover have "\<not> spec_contains_ci ''.'' ''X''" by code_simp
  moreover have "\<not> spec_contains_ci ''.'' ''Y''" by code_simp
  moreover have "run_stage lib
      \<lparr>artist_query = ''AC(DC'', track_query = [], year_range = (1980, 2000),
       selected_genres = [''Pop'', ''Rock'']\<rparr> Artist_Stage acdc_dataset
      = Inl (Pattern_Error ''AC(DC'')"
    by code_simp
  moreover have "run_stage lib
      \<lparr>artist_query = [], track_query = ''AC(DC'', year_range = (1980, 2000),
       selected_genres = [''Pop'', ''Rock'']\<rparr> Track_Stage acdc_dataset
      = Inl (Pattern_Error ''AC(DC'')"
    by code_simp
  moreover have "acdc_dataset = [row_abc, row_acdc]" by (simp add: acdc_dataset_def)
  moreover have "spec_cell_contains_ci ''AC(DC'' (artist_name row_acdc)" by code_simp
  moreover have "spec_cell_contains_ci ''AC(DC'' (track_name row_acdc)" by code_simp
  ultimately show ?thesis by (intro conjI)
qed

text \<open>
  C8.  When the data file does not exist, \<open>load_songs\<close> returns the empty frame
  and shows the file-not-found error; \<open>main\<close> then shows a warning and returns
  without an exception, and no metric (no statistics) is shown.
\<close>

theorem missing_file_no_statistics:
  assumes "fs updated_spotify_data_csv = None"
  shows "load_songs fs = ([], [Error_Msg not_found_message])
         \<and> main lib fs inp =
             ([Title ''Spotify Songs Search'',
               Markdown ''Search and filter through your Spotify songs collection'',
               Markdown ''---'',
               Error_Msg not_found_message,
               Warning_Msg
                 ''No songs data available. Please check if your CSV file exists and contains data.''],
              None)
         \<and> (\<forall>label v. Metric label v \<notin> set (fst (main lib fs inp)))"
proof -
  have l: "load_songs fs = ([], [Error_Msg not_found_message])"
    using assms by (simp add: load_songs_def)
  have m: "main lib fs inp =
             ([Title ''Spotify Songs Search'',
               Markdown ''Search and filter through your Spotify songs collection'',
               Markdown ''---'',
               Error_Msg not_found_message,
               Warning_Msg
                 ''No songs data available. Please check if your CSV file exists and contains data.''],
              None)"
    by (simp add: main_def l)
  show ?thesis unfolding m using l by simp
qed

theorem missing_file_no_statistics_witness:
  "no_files updated_spotify_data_csv = None
   \<and> load_songs no_files = ([], [Error_Msg not_found_message])
   \<and> snd (main lazy_library no_files untouched) = None"
proof -
  have h: "no_files updated_spotify_data_csv = None" by (simp add: no_files_def)
  show ?thesis
    using h missing_file_no_statistics
      [where fs = no_files and lib = lazy_library and inp = untouched, OF h]
    by simp
qed

text \<open>
  C9.  The search never changes the source dataset.  Every object that was in the
  store before the search, the one \<^verbatim>\<open>songs_df\<close> names among them, holds the same
  rows afterwards, whether the search returns or raises.  When it returns,
  \<^verbatim>\<open>filtered_songs\<close> names another object than \<^verbatim>\<open>songs_df\<close>, and that object holds the
  frame \<open>apply_filters\<close> computes.
\<close>

theorem search_keeps_source:
  assumes "songs_df < next_id s" and "search_songs lib songs_df C s = (res, s')"
  shows "frames s' songs_df = frames s songs_df
         \<and> (\<forall>i < next_id s. frames s' i = frames s i)
         \<and> (case res of
               Inl e \<Rightarrow> apply_filters lib (frames s songs_df) C = Inl e
             | Inr filtered_songs \<Rightarrow>
                 filtered_songs \<noteq> songs_df
                 \<and> apply_filters lib (frames s songs_df) C = Inr (frames s' filtered_songs))"
proof -
  define s1 where "s1 = snd (df_copy songs_df s)"
  have cp: "df_copy songs_df s = (next_id s, s1)"
    by (simp add: s1_def df_copy_def allocate_def)
  have n1: "next_id s1 = Suc (next_id s)"
    and c1: "frames s1 (next_id s) = frames s songs_df"
    and k1: "\<forall>i < next_id s. frames s1 i = frames s i"
    by (simp_all add: s1_def df_copy_def allocate_def)
  have run: "run_stages_store lib C source_order (next_id s) s1 = (res, s')"
    using assms(2) by (simp add: search_songs_def cp)
  have lt: "next_id s < next_id s1" by (simp add: n1)
  note f = run_stages_store_frame [OF run order_refl lt]
  have keep: "\<forall>i < next_id s. frames s' i = frames s i"
    using f k1 n1 by auto
  have val: "case res of
               Inl e \<Rightarrow> apply_filters lib (frames s songs_df) C = Inl e
             | Inr filtered_songs \<Rightarrow>
                 filtered_songs \<noteq> songs_df
                 \<and> apply_filters lib (frames s songs_df) C = Inr (frames s' filtered_songs)"
    using f c1 assms(1) by (cases res) (auto simp: apply_filters_def)
  from keep val assms(1) show ?thesis by blast
qed

theorem search_keeps_source_witness:
  "(0::nat) < next_id scenario_store
   \<and> fst (search_songs lazy_library 0 scenario_criteria scenario_store) = Inr 4
   \<and> frames (snd (search_songs lazy_library 0 scenario_criteria scenario_store)) 0
       = scenario_dataset
   \<and> frames (snd (search_songs lazy_library 0 scenario_criteria scenario_store)) 4
       = [row_abc]"
proof -
  have h: "(0::nat) < next_id scenario_store" by (simp add: scenario_store_def)
  have r: "search_songs lazy_library 0 scenario_criteria scenario_store =
             (fst (search_songs lazy_library 0 scenario_criteria scenario_store),
              snd (search_songs lazy_library 0 scenario_criteria scenario_store))"
    by simp
  have e: "fst (search_songs lazy_library 0 scenario_criteria scenario_store) = Inr 4"
    by code_simp
  have a: "apply_filters lazy_library scenario_dataset scenario_criteria = Inr [row_abc]"
    by code_simp
  have f0: "frames scenario_store 0 = scenario_dataset" by (simp add: scenario_store_def)
  show ?thesis
    using h e a search_keeps_source [OF h r] by (simp add: f0)
qed

end
